theory Spec2Isabelle
  imports Main "HOL-Library.Word"
begin

section \<open>Values, errors and the store\<close>

text \<open>
  The package \<open>errx\<close> works on three kinds of Go values that the model keeps apart:
  values of the empty interface \<open>any\<close> (map values and the arguments of
  \<open>WithMetaContext\<close>), values of the interface \<open>error\<close>, and the objects that
  live behind a reference: \<open>Error\<close> structs (always handled through \<open>*Error\<close>) and
  \<open>map[string]any\<close> maps. Objects live in a store indexed by addresses, so that
  "the same instance" and "mutated in place" can be said.
\<close>

type_synonym addr = nat

text \<open>\<open>type Code uint8\<close>\<close>

type_synonym Code = "8 word"

type_synonym uintptr = "64 word"

datatype any = NilAny | StringVal string | IntVal int | BoolVal bool

text \<open>
  A value of interface type \<open>error\<close>: the nil interface; a \<open>*Error\<close> (the pointer may
  be nil: an interface that holds a typed nil pointer is not the nil interface); an error
  without \<open>Unwrap\<close> (\<open>errors.New\<close>); an error with \<open>Unwrap() error\<close>
  (\<open>fmt.Errorf\<close> with one \<open>%w\<close>); an error with \<open>Unwrap() []error\<close>
  (\<open>errors.Join\<close>). These are the errors that the standard library builds around the
  package's own; they are finite trees and none of them has an \<open>As\<close> method.
\<close>

datatype error =
    NilError
  | ErrxPtr "addr option"
  | ErrorString string
  | WrapError string error
  | JoinError "error list"

text \<open>
  \<open>type Error struct\<close>. The two maps are references into the store (\<open>None\<close> is the
  nil map, which the zero value \<open>Error{}\<close> has).
\<close>

record Error =
  code :: Code
  message :: string
  debugMessage :: string
  cause :: error
  source :: string
  tags :: "string list"
  details :: "addr option"
  metadata :: "addr option"
  stackTrace :: "uintptr list"
  retryable :: bool

text \<open>
  The store: the \<open>Error\<close> objects and the map objects allocated so far. Allocation
  takes the next address of its kind.
\<close>

record heap =
  error_objs :: "addr \<Rightarrow> Error"
  next_error :: addr
  map_objs :: "addr \<Rightarrow> (string \<rightharpoonup> any)"
  next_map :: addr

text \<open>The run-time panics the package can raise.\<close>

datatype panic = NilDereference | NilMapAssign | NilParentContext

text \<open>
  Modelled from the spec: the generated constants of \<open>type Code\<close> (the generated file
  is not among the sources); the values are the ones \<open>TestCodeValues\<close> pins down.
\<close>

definition CodeUnknown :: Code where
  "CodeUnknown = 0"

definition CodeNotFound :: Code where
  "CodeNotFound = 4"

definition CodeInternal :: Code where
  "CodeInternal = 12"

definition CodeUnavailable :: Code where
  "CodeUnavailable = 13"

section \<open>errx.go: constructors and chain traversal\<close>

definition stackSkipDepth :: nat where
  "stackSkipDepth = 4"

definition maxDepth :: nat where
  "maxDepth = 32"

text \<open>
  \<open>runtime.Callers(skip, pcs)\<close>: fills \<open>pcs\<close> with the program counters of the
  calling goroutine's stack after skipping \<open>skip\<close> frames, as many as fit, and returns
  how many it wrote. The stack (innermost frame first, frame 0 is \<open>Callers\<close> itself) is
  ambient in Go and a parameter here.
\<close>

definition runtime_Callers :: "uintptr list \<Rightarrow> nat \<Rightarrow> uintptr list \<Rightarrow> nat \<times> uintptr list" where
  "runtime_Callers callstack skip pcs =
     (let written = take (length pcs) (drop skip callstack)
      in (length written, written @ drop (length written) pcs))"

definition captureStackTrace :: "uintptr list \<Rightarrow> nat \<Rightarrow> uintptr list" where
  "captureStackTrace callstack skip =
     (let pcs = replicate maxDepth 0;
          (n, pcs') = runtime_Callers callstack skip pcs
      in take n pcs')"

definition newError :: "heap \<Rightarrow> uintptr list \<Rightarrow> Code \<Rightarrow> string \<Rightarrow> error \<Rightarrow> heap \<times> addr option" where
  "newError h callstack c msg cs =
     (let d = next_map h;
          m = Suc (next_map h);
          a = next_error h;
          e = \<lparr>code = c, message = msg, debugMessage = [], cause = cs, source = [],
               tags = [], details = Some d, metadata = Some m,
               stackTrace = captureStackTrace callstack stackSkipDepth, retryable = False\<rparr>
      in (h\<lparr>error_objs := (error_objs h)(a := e), next_error := Suc a,
            map_objs := (map_objs h)(d := Map.empty, m := Map.empty),
            next_map := Suc (Suc d)\<rparr>,
          Some a))"

definition New :: "heap \<Rightarrow> uintptr list \<Rightarrow> Code \<Rightarrow> string \<Rightarrow> heap \<times> addr option" where
  "New h callstack c msg = newError h callstack c msg NilError"

text \<open>\<open>fmt.Sprintf\<close> is a parameter of the formatted variants.\<close>

definition Newf :: "(string \<Rightarrow> any list \<Rightarrow> string) \<Rightarrow> heap \<Rightarrow> uintptr list \<Rightarrow> Code \<Rightarrow> string \<Rightarrow> any list
    \<Rightarrow> heap \<times> addr option" where
  "Newf sprintf h callstack c format args = newError h callstack c (sprintf format args) NilError"

definition Wrap :: "heap \<Rightarrow> uintptr list \<Rightarrow> error \<Rightarrow> Code \<Rightarrow> string \<Rightarrow> heap \<times> addr option" where
  "Wrap h callstack err c msg =
     (if err = NilError then (h, None) else newError h callstack c msg err)"

definition Wrapf :: "(string \<Rightarrow> any list \<Rightarrow> string) \<Rightarrow> heap \<Rightarrow> uintptr list \<Rightarrow> error \<Rightarrow> Code \<Rightarrow> string
    \<Rightarrow> any list \<Rightarrow> heap \<times> addr option" where
  "Wrapf sprintf h callstack err c format args =
     (if err = NilError then (h, None) else newError h callstack c (sprintf format args) err)"

text \<open>
  \<open>errors.As(err, &pe)\<close> of the standard library for a target of type \<open>*Error\<close>:
  a node matches when its dynamic type is \<open>*Error\<close> (the pointer it holds is stored in
  the target, nil or not); otherwise the walk goes on through \<open>Unwrap\<close>, depth-first and
  left to right through an \<open>Unwrap() []error\<close>, skipping nil entries. \<open>None\<close> is the
  answer \<open>false\<close>, which leaves the target untouched.
\<close>

fun errors_As :: "error \<Rightarrow> addr option option"
  and errors_As_each :: "error list \<Rightarrow> addr option option" where
  "errors_As NilError = None"
| "errors_As (ErrxPtr p) = Some p"
| "errors_As (ErrorString s) = None"
| "errors_As (WrapError s inner) = errors_As inner"
| "errors_As (JoinError errs) = errors_As_each errs"
| "errors_As_each [] = None"
| "errors_As_each (e # rest) =
     (if e = NilError then errors_As_each rest
      else (case errors_As e of Some p \<Rightarrow> Some p | None \<Rightarrow> errors_As_each rest))"

text \<open>\<open>AsType[E]\<close> at \<open>E = *Error\<close>, the instance every function of the package uses.\<close>

definition AsType :: "error \<Rightarrow> addr option \<times> bool" where
  "AsType err =
     (if err = NilError then (None, False)
      else (case errors_As err of Some pe \<Rightarrow> (pe, True) | None \<Rightarrow> (None, False)))"

definition IsType :: "error \<Rightarrow> bool" where
  "IsType err = snd (AsType err)"

definition As :: "error \<Rightarrow> addr option \<times> bool" where
  "As err = AsType err"

definition Is :: "error \<Rightarrow> bool" where
  "Is err = IsType err"

definition Ensure :: "heap \<Rightarrow> uintptr list \<Rightarrow> error \<Rightarrow> Code \<Rightarrow> string \<Rightarrow> heap \<times> addr option" where
  "Ensure h callstack err c msg =
     (if err = NilError then (h, None)
      else (case As err of
              (e, True) \<Rightarrow> (h, e)
            | (e, False) \<Rightarrow> newError h callstack c msg err))"

definition Ensuref :: "(string \<Rightarrow> any list \<Rightarrow> string) \<Rightarrow> heap \<Rightarrow> uintptr list \<Rightarrow> error \<Rightarrow> Code \<Rightarrow> string
    \<Rightarrow> any list \<Rightarrow> heap \<times> addr option" where
  "Ensuref sprintf h callstack err c format args =
     (if err = NilError then (h, None)
      else (case As err of
              (e, True) \<Rightarrow> (h, e)
            | (e, False) \<Rightarrow> newError h callstack c (sprintf format args) err))"

text \<open>
  \<open>CodeOf\<close>, \<open>CodeIs\<close> and \<open>CodeIn\<close> read the field \<open>e.code\<close> of the pointer that
  \<open>As\<close> found, which panics when that pointer is nil.
\<close>

definition CodeOf :: "heap \<Rightarrow> error \<Rightarrow> panic + Code" where
  "CodeOf h err =
     (case As err of
        (e, True) \<Rightarrow> (case e of None \<Rightarrow> Inl NilDereference | Some a \<Rightarrow> Inr (code (error_objs h a)))
      | (e, False) \<Rightarrow> Inr CodeUnknown)"

definition CodeIs :: "heap \<Rightarrow> error \<Rightarrow> Code \<Rightarrow> panic + bool" where
  "CodeIs h err c =
     (case As err of
        (e, True) \<Rightarrow> (case e of None \<Rightarrow> Inl NilDereference | Some a \<Rightarrow> Inr (code (error_objs h a) = c))
      | (e, False) \<Rightarrow> Inr False)"

definition CodeIn :: "heap \<Rightarrow> error \<Rightarrow> Code list \<Rightarrow> panic + bool" where
  "CodeIn h err codes =
     (case As err of
        (e, False) \<Rightarrow> Inr False
      | (e, True) \<Rightarrow> (case e of None \<Rightarrow> Inl NilDereference
                      | Some a \<Rightarrow> Inr (List.member codes (code (error_objs h a)))))"

section \<open>error.go: readers, mutators and comparison\<close>

text \<open>
  Every method has the receiver \<open>e *Error\<close>, here the store and the pointer. The
  methods that render text (\<open>DebugMessage\<close>, \<open>FormatStackTrace\<close>, \<open>LogValue\<close>) are
  left out.
\<close>

definition Error_Code :: "heap \<Rightarrow> addr option \<Rightarrow> Code" where
  "Error_Code h e = (case e of None \<Rightarrow> CodeUnknown | Some a \<Rightarrow> code (error_objs h a))"

definition Error_Error :: "heap \<Rightarrow> addr option \<Rightarrow> string" where
  "Error_Error h e = (case e of None \<Rightarrow> [] | Some a \<Rightarrow> message (error_objs h a))"

definition Error_Unwrap :: "heap \<Rightarrow> addr option \<Rightarrow> error" where
  "Error_Unwrap h e = (case e of None \<Rightarrow> NilError | Some a \<Rightarrow> cause (error_objs h a))"

definition Error_Source :: "heap \<Rightarrow> addr option \<Rightarrow> string" where
  "Error_Source h e = (case e of None \<Rightarrow> [] | Some a \<Rightarrow> source (error_objs h a))"

definition Error_Tags :: "heap \<Rightarrow> addr option \<Rightarrow> string list" where
  "Error_Tags h e = (case e of None \<Rightarrow> [] | Some a \<Rightarrow> tags (error_objs h a))"

definition Error_Details :: "heap \<Rightarrow> addr option \<Rightarrow> addr option" where
  "Error_Details h e = (case e of None \<Rightarrow> None | Some a \<Rightarrow> details (error_objs h a))"

definition Error_Metadata :: "heap \<Rightarrow> addr option \<Rightarrow> addr option" where
  "Error_Metadata h e = (case e of None \<Rightarrow> None | Some a \<Rightarrow> metadata (error_objs h a))"

definition Error_StackTrace :: "heap \<Rightarrow> addr option \<Rightarrow> uintptr list" where
  "Error_StackTrace h e = (case e of None \<Rightarrow> [] | Some a \<Rightarrow> stackTrace (error_objs h a))"

definition Error_IsRetryable :: "heap \<Rightarrow> addr option \<Rightarrow> bool" where
  "Error_IsRetryable h e = (case e of None \<Rightarrow> False | Some a \<Rightarrow> retryable (error_objs h a))"

definition IsRetryable :: "heap \<Rightarrow> error \<Rightarrow> bool" where
  "IsRetryable h err =
     (case As err of
        (e, False) \<Rightarrow> False
      | (e, True) \<Rightarrow> Error_IsRetryable h e)"

text \<open>
  The content of a map value: a nil map reads as the empty map.
\<close>

definition map_content :: "heap \<Rightarrow> addr option \<Rightarrow> (string \<rightharpoonup> any)" where
  "map_content h r = (case r of None \<Rightarrow> Map.empty | Some a \<Rightarrow> map_objs h a)"

text \<open>
  \<open>m[key] = value\<close> on the map value \<open>r\<close>: a panic on the nil map.
\<close>

definition map_assign :: "heap \<Rightarrow> addr option \<Rightarrow> string \<Rightarrow> any \<Rightarrow> panic + heap" where
  "map_assign h r key v =
     (case r of
        None \<Rightarrow> Inl NilMapAssign
      | Some a \<Rightarrow> Inr (h\<lparr>map_objs := (map_objs h)(a := (map_objs h a)(key \<mapsto> v))\<rparr>))"

definition Error_WithDetail :: "heap \<Rightarrow> addr option \<Rightarrow> string \<Rightarrow> any \<Rightarrow> panic + heap \<times> addr option" where
  "Error_WithDetail h e key v =
     (case e of
        None \<Rightarrow> Inr (h, None)
      | Some a \<Rightarrow> (case map_assign h (details (error_objs h a)) key v of
                    Inl p \<Rightarrow> Inl p
                  | Inr h' \<Rightarrow> Inr (h', e)))"

definition Error_WithMeta :: "heap \<Rightarrow> addr option \<Rightarrow> string \<Rightarrow> any \<Rightarrow> panic + heap \<times> addr option" where
  "Error_WithMeta h e key v =
     (case e of
        None \<Rightarrow> Inr (h, None)
      | Some a \<Rightarrow> (case map_assign h (metadata (error_objs h a)) key v of
                    Inl p \<Rightarrow> Inl p
                  | Inr h' \<Rightarrow> Inr (h', e)))"

definition Error_WithDebug :: "heap \<Rightarrow> addr option \<Rightarrow> string \<Rightarrow> heap \<times> addr option" where
  "Error_WithDebug h e msg =
     (case e of
        None \<Rightarrow> (h, None)
      | Some a \<Rightarrow> (h\<lparr>error_objs := (error_objs h)(a := (error_objs h a)\<lparr>debugMessage := msg\<rparr>)\<rparr>, e))"

definition Error_WithDebugf :: "(string \<Rightarrow> any list \<Rightarrow> string) \<Rightarrow> heap \<Rightarrow> addr option \<Rightarrow> string \<Rightarrow> any list
    \<Rightarrow> heap \<times> addr option" where
  "Error_WithDebugf sprintf h e format args = Error_WithDebug h e (sprintf format args)"

definition Error_WithSource :: "heap \<Rightarrow> addr option \<Rightarrow> string \<Rightarrow> heap \<times> addr option" where
  "Error_WithSource h e src =
     (case e of
        None \<Rightarrow> (h, None)
      | Some a \<Rightarrow> (h\<lparr>error_objs := (error_objs h)(a := (error_objs h a)\<lparr>source := src\<rparr>)\<rparr>, e))"

definition Error_WithTags :: "heap \<Rightarrow> addr option \<Rightarrow> string list \<Rightarrow> heap \<times> addr option" where
  "Error_WithTags h e ts =
     (case e of
        None \<Rightarrow> (h, None)
      | Some a \<Rightarrow> (h\<lparr>error_objs := (error_objs h)(a := (error_objs h a)\<lparr>tags := tags (error_objs h a) @ ts\<rparr>)\<rparr>, e))"

definition Error_WithRetryable :: "heap \<Rightarrow> addr option \<Rightarrow> heap \<times> addr option" where
  "Error_WithRetryable h e =
     (case e of
        None \<Rightarrow> (h, None)
      | Some a \<Rightarrow> (h\<lparr>error_objs := (error_objs h)(a := (error_objs h a)\<lparr>retryable := True\<rparr>)\<rparr>, e))"

text \<open>
  \<open>(*Error).Is\<close>: the type assertion \<open>target.(*Error)\<close> succeeds on every \<open>*Error\<close>,
  the nil pointer included, and \<open>t.code\<close> then reads through it.
\<close>

definition Error_Is :: "heap \<Rightarrow> addr option \<Rightarrow> error \<Rightarrow> panic + bool" where
  "Error_Is h e target =
     (case e of
        None \<Rightarrow> Inr (target = NilError)
      | Some a \<Rightarrow> (case target of
                    ErrxPtr t \<Rightarrow> (case t of
                                   None \<Rightarrow> Inl NilDereference
                                 | Some b \<Rightarrow> Inr (code (error_objs h a) = code (error_objs h b)))
                  | _ \<Rightarrow> Inr False))"

section \<open>context.go: the metadata snapshot carried by a context\<close>

text \<open>
  A non-nil \<open>context.Context\<close> is the background context or a value context on top of
  a parent; a value of the interface type is \<open>None\<close> (the nil interface) or \<open>Some\<close>
  of one. The key \<open>errxCtxKey{}\<close> is private to the package; other keys and other
  values belong to the rest of the program.
\<close>

datatype ctxkey = ErrxCtxKey | OtherKey string

datatype ctxval = MetaMap "addr option" | OtherVal any

datatype ctx = Background | ValueCtx ctx ctxkey ctxval

text \<open>\<open>ctx.Value(key)\<close>: the nearest value stored under the key, \<open>None\<close> for nil.\<close>

fun ctx_Value :: "ctx \<Rightarrow> ctxkey \<Rightarrow> ctxval option" where
  "ctx_Value Background k = None"
| "ctx_Value (ValueCtx parent k' v) k = (if k' = k then Some v else ctx_Value parent k)"

text \<open>\<open>context.WithValue\<close> panics on a nil parent.\<close>

definition context_WithValue :: "ctx option \<Rightarrow> ctxkey \<Rightarrow> ctxval \<Rightarrow> panic + ctx option" where
  "context_WithValue parent k v =
     (case parent of
        None \<Rightarrow> Inl NilParentContext
      | Some c \<Rightarrow> Inr (Some (ValueCtx c k v)))"

definition getCtxMeta :: "ctx option \<Rightarrow> addr option" where
  "getCtxMeta c =
     (case c of
        None \<Rightarrow> None
      | Some c' \<Rightarrow> (case ctx_Value c' ErrxCtxKey of
                     Some (MetaMap meta) \<Rightarrow> meta
                   | _ \<Rightarrow> None))"

text \<open>
  The second loop of \<open>WithMetaContext\<close>, from index \<open>i\<close> on:
  \<open>for i := 0; i < len(keyvals)-1; i += 2\<close>.
\<close>

function keyvals_loop :: "any list \<Rightarrow> nat \<Rightarrow> (string \<rightharpoonup> any) \<Rightarrow> (string \<rightharpoonup> any)" where
  "keyvals_loop keyvals i merged =
     (if int i < int (length keyvals) - 1
      then (case keyvals ! i of
              StringVal key \<Rightarrow> keyvals_loop keyvals (i + 2) (merged(key \<mapsto> keyvals ! (i + 1)))
            | _ \<Rightarrow> keyvals_loop keyvals (i + 2) merged)
      else merged)"
  by pat_completeness auto
termination
  by (relation "measure (\<lambda>(keyvals, i, merged). length keyvals - i)") auto

declare keyvals_loop.simps [simp del]

text \<open>
  \<open>WithMetaContext\<close>: the fresh map \<open>merged\<close> first receives every entry of the
  parent's map (the \<open>range\<close> loop; the keys of a map are distinct, so the copy is the
  parent's content whatever the order), then the pairs.
\<close>

definition WithMetaContext :: "heap \<Rightarrow> ctx option \<Rightarrow> any list \<Rightarrow> panic + heap \<times> ctx option" where
  "WithMetaContext h c keyvals =
     (let existing = getCtxMeta c;
          merged = next_map h;
          copied = Map.empty ++ map_content h existing;
          filled = keyvals_loop keyvals 0 copied;
          h' = h\<lparr>map_objs := (map_objs h)(merged := filled), next_map := Suc merged\<rparr>
      in (case context_WithValue c ErrxCtxKey (MetaMap (Some merged)) of
            Inl p \<Rightarrow> Inl p
          | Inr c' \<Rightarrow> Inr (h', c')))"

text \<open>
  \<open>(*Error).WithMetaFromContext\<close>: the loop body runs once for each entry of the
  context's map, so an empty or missing snapshot never touches \<open>e.metadata\<close>.
\<close>

definition Error_WithMetaFromContext :: "heap \<Rightarrow> addr option \<Rightarrow> ctx option \<Rightarrow> panic + heap \<times> addr option" where
  "Error_WithMetaFromContext h e c =
     (case e of
        None \<Rightarrow> Inr (h, None)
      | Some a \<Rightarrow>
          (let snapshot = map_content h (getCtxMeta c)
           in if snapshot = Map.empty then Inr (h, e)
              else (case metadata (error_objs h a) of
                      None \<Rightarrow> Inl NilMapAssign
                    | Some m \<Rightarrow> Inr (h\<lparr>map_objs := (map_objs h)(m := map_objs h m ++ snapshot)\<rparr>, e))))"

section \<open>The vocabulary of the specification\<close>

text \<open>
  The values of type \<open>*Error\<close> that unwrapping \<open>err\<close> meets, in the order of the
  traversal (depth-first, left to right). The walk does not look below a \<open>*Error\<close>:
  whatever its cause holds comes after it. A pointer in the list may be nil; the head of
  the list is the node that the traversal finds.
\<close>

fun errx_nodes :: "error \<Rightarrow> addr option list" where
  "errx_nodes NilError = []"
| "errx_nodes (ErrxPtr p) = [p]"
| "errx_nodes (ErrorString s) = []"
| "errx_nodes (WrapError s inner) = errx_nodes inner"
| "errx_nodes (JoinError errs) = concat (map errx_nodes errs)"

text \<open>
  The constructed ErrorValues among those nodes: the pointers that are not nil. An
  ErrorValue below another one is reached only through it, and a nil \<open>*Error\<close> has
  nothing below it, so the chain of \<open>err\<close> holds a constructed ErrorValue exactly when
  this list is not empty.
\<close>

fun constructed :: "addr option list \<Rightarrow> addr list" where
  "constructed [] = []"
| "constructed (None # ps) = constructed ps"
| "constructed (Some a # ps) = a # constructed ps"

definition ErrorValues :: "error \<Rightarrow> addr list" where
  "ErrorValues err = constructed (errx_nodes err)"

text \<open>
  A chain in the narrow sense: every node has at most one error below it (no
  \<open>Unwrap() []error\<close> on the way).
\<close>

fun single_chain :: "error \<Rightarrow> bool" where
  "single_chain NilError = True"
| "single_chain (ErrxPtr p) = True"
| "single_chain (ErrorString s) = True"
| "single_chain (WrapError s inner) = single_chain inner"
| "single_chain (JoinError errs) = False"

text \<open>\<open>read(context)\<close>: the snapshot as a mapping, empty if none was attached.\<close>

definition read_snapshot :: "heap \<Rightarrow> ctx option \<Rightarrow> (string \<rightharpoonup> any)" where
  "read_snapshot h c = map_content h (getCtxMeta c)"

text \<open>
  \<open>attach\<close> as the specification words it: the arguments are read as pairs, a trailing
  key without a value is dropped, a pair whose key is not a string is dropped, and the
  remaining pairs are laid over the parent's snapshot, a later pair over an earlier one.
\<close>

fun keyval_pairs :: "any list \<Rightarrow> (any \<times> any) list" where
  "keyval_pairs (k # v # rest) = (k, v) # keyval_pairs rest"
| "keyval_pairs [k] = []"
| "keyval_pairs [] = []"

fun string_keyed :: "(any \<times> any) list \<Rightarrow> (string \<times> any) list" where
  "string_keyed [] = []"
| "string_keyed ((StringVal s, v) # ps) = (s, v) # string_keyed ps"
| "string_keyed ((k, v) # ps) = string_keyed ps"

definition attach_spec :: "(string \<rightharpoonup> any) \<Rightarrow> any list \<Rightarrow> (string \<rightharpoonup> any)" where
  "attach_spec parent keyvals = parent ++ map_of (rev (string_keyed (keyval_pairs keyvals)))"

text \<open>
  The empty store, and the zero value \<open>Error{}\<close> that unallocated addresses hold:
  the starting point of the worked examples.
\<close>

definition zeroError :: Error where
  "zeroError = \<lparr>code = 0, message = [], debugMessage = [], cause = NilError, source = [],
                 tags = [], details = None, metadata = None, stackTrace = [],
                 retryable = False\<rparr>"

definition heap0 :: heap where
  "heap0 = \<lparr>error_objs = (\<lambda>a. zeroError), next_error = 0,
             map_objs = (\<lambda>a. Map.empty), next_map = 0\<rparr>"

text \<open>A map value that is nil or was allocated in the store.\<close>

definition allocated_map :: "heap \<Rightarrow> addr option \<Rightarrow> bool" where
  "allocated_map h r = (case r of None \<Rightarrow> True | Some a \<Rightarrow> a < next_map h)"

text \<open>
  What the specification asks of a node that a constructor has just made in the store
  \<open>h\<close>: it is a new object, its two maps are there and empty, and its stack trace is
  the one capture of the construction, at most 32 frames long.
\<close>

definition fresh_ErrorValue :: "heap \<Rightarrow> uintptr list \<Rightarrow> heap \<times> addr option \<Rightarrow> bool" where
  "fresh_ErrorValue h callstack r =
     (case r of
        (h', e) \<Rightarrow>
          e = Some (next_error h)
        \<and> Error_Details h' e \<noteq> None
        \<and> Error_Metadata h' e \<noteq> None
        \<and> map_content h' (Error_Details h' e) = Map.empty
        \<and> map_content h' (Error_Metadata h' e) = Map.empty
        \<and> Error_StackTrace h' e = captureStackTrace callstack stackSkipDepth
        \<and> length (Error_StackTrace h' e) \<le> 32)"

section \<open>Worked examples\<close>

text \<open>
  The example of the specification: the context that \<open>attach(emptyCtx, "a", 1, "b", 2)\<close>
  builds, and the store it leaves.
\<close>

definition heap_ab :: heap where
  "heap_ab = heap0\<lparr>map_objs := (map_objs heap0)(0 := [''a'' \<mapsto> IntVal 1, ''b'' \<mapsto> IntVal 2]),
                   next_map := 1\<rparr>"

definition ctx_ab :: "ctx option" where
  "ctx_ab = Some (ValueCtx Background ErrxCtxKey (MetaMap (Some 0)))"

text \<open>
  The example of the tests: an ErrorValue made by \<open>New\<close> in the empty store, and then a
  context that carries \<open>user_id = 123\<close>.
\<close>

definition heap_meta :: heap where
  "heap_meta = (case New heap0 [] CodeInternal ''something failed'' of
                  (h, e) \<Rightarrow> (case WithMetaContext h (Some Background)
                                    [StringVal ''user_id'', IntVal 123] of
                               Inr (h', c) \<Rightarrow> h' | Inl p \<Rightarrow> h))"

definition ctx_meta :: "ctx option" where
  "ctx_meta = Some (ValueCtx Background ErrxCtxKey (MetaMap (Some 2)))"

text \<open>The store after \<open>New(CodeNotFound, "not found")\<close> in the empty store.\<close>

definition heap_nf :: heap where
  "heap_nf = fst (New heap0 [] CodeNotFound ''not found'')"

text \<open>A call stack of forty frames.\<close>

definition stack40 :: "uintptr list" where
  "stack40 = map of_nat [0..<40]"

section \<open>Chain traversal finds the first ErrorValue\<close>

lemma first_append:
  "(case xs @ ys of [] \<Rightarrow> None | p # ps \<Rightarrow> Some p)
     = (case xs of [] \<Rightarrow> (case ys of [] \<Rightarrow> None | p # ps \<Rightarrow> Some p) | p # ps \<Rightarrow> Some p)"
  by (cases xs) simp_all

lemma errors_As_nodes:
  "errors_As err = (case errx_nodes err of [] \<Rightarrow> None | p # ps \<Rightarrow> Some p)"
  "errors_As_each errs = (case concat (map errx_nodes errs) of [] \<Rightarrow> None | p # ps \<Rightarrow> Some p)"
proof (induction err and errs rule: errors_As_errors_As_each.induct)
  case (7 e rest)
  have split: "(case concat (map errx_nodes (e # rest)) of [] \<Rightarrow> None | p # ps \<Rightarrow> Some p)
      = (case errx_nodes e of
           [] \<Rightarrow> (case concat (map errx_nodes rest) of [] \<Rightarrow> None | p # ps \<Rightarrow> Some p)
         | p # ps \<Rightarrow> Some p)"
    using first_append [of "errx_nodes e" "concat (map errx_nodes rest)"] by simp
  show ?case
  proof (cases "e = NilError")
    case True
    with 7(1) show ?thesis unfolding split by simp
  next
    case False
    show ?thesis
    proof (cases "errors_As e")
      case None
      with False 7(2,3) show ?thesis unfolding split by (cases "errx_nodes e") simp_all
    next
      case (Some p)
      with False 7(2) show ?thesis unfolding split by (cases "errx_nodes e") simp_all
    qed
  qed
qed simp_all

lemma As_found: "errx_nodes err = p # ps \<Longrightarrow> As err = (p, True)"
  by (cases "err = NilError") (simp_all add: As_def AsType_def errors_As_nodes(1))

lemma As_not_found: "errx_nodes err = [] \<Longrightarrow> As err = (None, False)"
  by (simp add: As_def AsType_def errors_As_nodes(1))

lemma single_chain_nodes:
  "single_chain err \<Longrightarrow> ErrorValues err = a # as \<Longrightarrow> errx_nodes err = [Some a]"
proof (induction err rule: single_chain.induct)
  case (2 p)
  then show ?case by (cases p) (simp_all add: ErrorValues_def)
qed (simp_all add: ErrorValues_def)

lemma heap_nf_built: "New heap0 [] CodeNotFound ''not found'' = (heap_nf, Some 0)"
  by (simp add: heap_nf_def New_def newError_def Let_def heap0_def)

section \<open>The stack capture\<close>

lemma captureStackTrace_eq:
  "captureStackTrace callstack skip = take maxDepth (drop skip callstack)"
  by (simp add: captureStackTrace_def runtime_Callers_def Let_def min_def)

lemma captureStackTrace_bound: "length (captureStackTrace callstack skip) \<le> maxDepth"
  by (simp add: captureStackTrace_eq)

section \<open>The pair loop against the specification's wording\<close>

lemma keyvals_loop_spec:
  "keyvals_loop keyvals i merged
     = merged ++ map_of (rev (string_keyed (keyval_pairs (drop i keyvals))))"
proof (induction keyvals i merged rule: keyvals_loop.induct)
  case (1 keyvals i merged)
  show ?case
  proof (cases "int i < int (length keyvals) - 1")
    case False
    then have "length (drop i keyvals) \<le> 1" by simp
    then have "keyval_pairs (drop i keyvals) = []"
      by (cases "drop i keyvals" rule: keyval_pairs.cases) auto
    with False show ?thesis by (subst keyvals_loop.simps) simp
  next
    case True
    then have lt: "Suc i < length keyvals" by simp
    then have d: "drop i keyvals = keyvals ! i # keyvals ! (i + 1) # drop (i + 2) keyvals"
      by (simp add: Cons_nth_drop_Suc)
    let ?rest = "map_of (rev (string_keyed (keyval_pairs (drop (i + 2) keyvals))))"
    show ?thesis
    proof (cases "keyvals ! i")
      case (StringVal key)
      have "keyvals_loop keyvals i merged
              = keyvals_loop keyvals (i + 2) (merged(key \<mapsto> keyvals ! (i + 1)))"
        using True StringVal by (subst keyvals_loop.simps) simp
      also have "\<dots> = merged(key \<mapsto> keyvals ! (i + 1)) ++ ?rest"
        using 1(2) [OF True StringVal] .
      also have "\<dots> = merged ++ map_of (rev (string_keyed (keyval_pairs (drop i keyvals))))"
        unfolding d StringVal by (simp add: map_add_upd_left)
      finally show ?thesis .
    next
      case NilAny
      have "keyvals_loop keyvals i merged = keyvals_loop keyvals (i + 2) merged"
        using True NilAny by (subst keyvals_loop.simps) simp
      also have "\<dots> = merged ++ ?rest"
        using 1(1) [OF True NilAny] .
      also have "\<dots> = merged ++ map_of (rev (string_keyed (keyval_pairs (drop i keyvals))))"
        unfolding d NilAny by simp
      finally show ?thesis .
    next
      case (IntVal n)
      have "keyvals_loop keyvals i merged = keyvals_loop keyvals (i + 2) merged"
        using True IntVal by (subst keyvals_loop.simps) simp
      also have "\<dots> = merged ++ ?rest"
        using 1(3) [OF True IntVal] .
      also have "\<dots> = merged ++ map_of (rev (string_keyed (keyval_pairs (drop i keyvals))))"
        unfolding d IntVal by simp
      finally show ?thesis .
    next
      case (BoolVal b)
      have "keyvals_loop keyvals i merged = keyvals_loop keyvals (i + 2) merged"
        using True BoolVal by (subst keyvals_loop.simps) simp
      also have "\<dots> = merged ++ ?rest"
        using 1(4) [OF True BoolVal] .
      also have "\<dots> = merged ++ map_of (rev (string_keyed (keyval_pairs (drop i keyvals))))"
        unfolding d BoolVal by simp
      finally show ?thesis .
    qed
  qed
qed

lemma attach_spec_unfold:
  "attach_spec parent [] = parent"
  "attach_spec parent [k] = parent"
  "attach_spec parent (StringVal key # v # rest) = attach_spec (parent(key \<mapsto> v)) rest"
  "attach_spec parent (NilAny # v # rest) = attach_spec parent rest"
  "attach_spec parent (IntVal n # v # rest) = attach_spec parent rest"
  "attach_spec parent (BoolVal b # v # rest) = attach_spec parent rest"
  by (simp_all add: attach_spec_def map_add_upd_left)

section \<open>Ensure\<close>

text \<open>
  C1, as the code has it. For every non-nil error whose unwrap chain contains an
  ErrorValue, where the traversal meets no nil \<open>*Error\<close> before the first of them,
  \<open>Ensure\<close> and \<open>Ensuref\<close> return that ErrorValue itself: the very pointer the chain
  holds, with the store exactly as it was before the call, so the code, the messages, the
  cause and every decoration of the node are what they were, nothing is allocated, and
  the fallback code and message do not show in the result. On a chain in the narrow sense
  the condition always holds: there every chain that contains an ErrorValue gets that
  instance back.
\<close>

theorem Ensure_passes_first_ErrorValue_through:
  "(err \<noteq> NilError \<and> errx_nodes err = Some a # ps \<longrightarrow>
      Ensure h callstack err fallbackCode fallbackMessage = (h, Some a)
    \<and> Ensuref sprintf h callstack err fallbackCode format args = (h, Some a))
   \<and> (err \<noteq> NilError \<and> single_chain err \<and> ErrorValues err = a # as \<longrightarrow>
      Ensure h callstack err fallbackCode fallbackMessage = (h, Some a)
    \<and> Ensuref sprintf h callstack err fallbackCode format args = (h, Some a))"
proof -
  have first: "Ensure h callstack err fallbackCode fallbackMessage = (h, Some a)
      \<and> Ensuref sprintf h callstack err fallbackCode format args = (h, Some a)"
    if "err \<noteq> NilError" and "errx_nodes err = Some a # qs" for qs
    using that by (simp add: Ensure_def Ensuref_def As_found)
  show ?thesis
    using first [of ps] first [of "[]"] single_chain_nodes [of err a as] by blast
qed

theorem Ensure_passes_first_ErrorValue_through_witness:
  "WrapError ''outer'' (ErrxPtr (Some 0)) \<noteq> NilError
   \<and> errx_nodes (WrapError ''outer'' (ErrxPtr (Some 0))) = [Some 0]
   \<and> single_chain (WrapError ''outer'' (ErrxPtr (Some 0)))
   \<and> ErrorValues (WrapError ''outer'' (ErrxPtr (Some 0))) = [0]
   \<and> New heap0 [] CodeNotFound ''not found'' = (heap_nf, Some 0)
   \<and> Ensure heap_nf [] (WrapError ''outer'' (ErrxPtr (Some 0))) CodeInternal ''fallback''
       = (heap_nf, Some 0)
   \<and> Error_Code heap_nf (Some 0) = CodeNotFound
   \<and> Error_Error heap_nf (Some 0) = ''not found''"
proof -
  have a: "WrapError ''outer'' (ErrxPtr (Some 0)) \<noteq> NilError" by simp
  have b: "errx_nodes (WrapError ''outer'' (ErrxPtr (Some 0))) = [Some 0]" by simp
  have c: "single_chain (WrapError ''outer'' (ErrxPtr (Some 0)))" by simp
  have d: "ErrorValues (WrapError ''outer'' (ErrxPtr (Some 0))) = [0]"
    by (simp add: ErrorValues_def)
  have e: "Error_Code heap_nf (Some 0) = CodeNotFound" "Error_Error heap_nf (Some 0) = ''not found''"
    by (simp_all add: heap_nf_def New_def newError_def Let_def heap0_def Error_Code_def
        Error_Error_def)
  show ?thesis
    using Ensure_passes_first_ErrorValue_through [where err = "WrapError ''outer'' (ErrxPtr (Some 0))"
        and a = 0 and ps = "[]" and as = "[]" and h = heap_nf and callstack = "[]"
        and fallbackCode = CodeInternal and fallbackMessage = "''fallback''"]
      a b c d e heap_nf_built by simp
qed

text \<open>
  C1 as the specification words it fails where a nil \<open>*Error\<close> comes first:
  \<open>errors.Join(error((*Error)(nil)), original)\<close> is a non-nil error that contains the
  ErrorValue \<open>original\<close>, and \<open>Ensure\<close> returns the nil pointer.
\<close>

theorem Ensure_nil_before_ErrorValue_counterexample:
  "New heap0 [] CodeNotFound ''not found'' = (heap_nf, Some 0)
   \<and> JoinError [ErrxPtr None, ErrxPtr (Some 0)] \<noteq> NilError
   \<and> ErrorValues (JoinError [ErrxPtr None, ErrxPtr (Some 0)]) = [0]
   \<and> Ensure heap_nf [] (JoinError [ErrxPtr None, ErrxPtr (Some 0)]) CodeInternal ''fallback''
       = (heap_nf, None)
   \<and> snd (Ensure heap_nf [] (JoinError [ErrxPtr None, ErrxPtr (Some 0)]) CodeInternal ''fallback'')
       \<noteq> Some 0"
  by (simp add: heap_nf_built ErrorValues_def Ensure_def As_def AsType_def)

text \<open>
  C2, as the code has it. For every non-nil error whose unwrap chain contains no node of
  type \<open>*Error\<close>, neither an ErrorValue nor a nil pointer of that type, \<open>Ensure\<close>
  returns a new ErrorValue: a pointer to an object allocated by the call, whose code is
  the fallback code, whose client message is the fallback message and whose cause is the
  error given; the objects that existed are untouched. \<open>Ensure\<close> of the nil error
  returns the nil pointer and leaves the store alone.
\<close>

theorem Ensure_wraps_unknown_shapes:
  "(err \<noteq> NilError \<and> errx_nodes err = [] \<longrightarrow>
      (case Ensure h callstack err fallbackCode fallbackMessage of
         (h', e) \<Rightarrow>
           e = Some (next_error h)
         \<and> next_error h' = Suc (next_error h)
         \<and> Error_Code h' e = fallbackCode
         \<and> Error_Error h' e = fallbackMessage
         \<and> Error_Unwrap h' e = err
         \<and> (\<forall>a. a \<noteq> next_error h \<longrightarrow> error_objs h' a = error_objs h a)))
   \<and> Ensure h callstack NilError fallbackCode fallbackMessage = (h, None)"
  by (simp add: Ensure_def As_not_found newError_def Let_def Error_Code_def Error_Error_def
      Error_Unwrap_def)

theorem Ensure_wraps_unknown_shapes_witness:
  "ErrorString ''something broke'' \<noteq> NilError
   \<and> errx_nodes (ErrorString ''something broke'') = []
   \<and> (case Ensure heap0 [] (ErrorString ''something broke'') CodeInternal ''internal error'' of
         (h', e) \<Rightarrow>
           e = Some 0
         \<and> Error_Code h' e = CodeInternal
         \<and> Error_Error h' e = ''internal error''
         \<and> Error_Unwrap h' e = ErrorString ''something broke'')
   \<and> Ensure heap0 [] NilError CodeInternal ''internal error'' = (heap0, None)"
  using Ensure_wraps_unknown_shapes [where err = "ErrorString ''something broke''" and h = heap0
      and callstack = "[]" and fallbackCode = CodeInternal and fallbackMessage = "''internal error''"]
  by (simp add: heap0_def split: prod.splits)

text \<open>
  C2 as the specification words it fails where the chain holds a nil \<open>*Error\<close> and no
  ErrorValue: \<open>fmt.Errorf("w: %w", error((*Error)(nil)))\<close> is a non-nil error without
  an ErrorValue in its chain, and \<open>Ensure\<close> returns the nil pointer and makes no node.
\<close>

theorem Ensure_nil_ErrorValue_only_counterexample:
  "WrapError ''w: '' (ErrxPtr None) \<noteq> NilError
   \<and> ErrorValues (WrapError ''w: '' (ErrxPtr None)) = []
   \<and> Ensure heap0 [] (WrapError ''w: '' (ErrxPtr None)) CodeInternal ''unexpected''
       = (heap0, None)
   \<and> snd (Ensure heap0 [] (WrapError ''w: '' (ErrxPtr None)) CodeInternal ''unexpected'')
       \<noteq> Some (next_error heap0)"
  by (simp add: ErrorValues_def Ensure_def As_def AsType_def)

section \<open>Deriving a context\<close>

lemma WithMetaContext_result:
  "WithMetaContext h (Some c) keyvals =
     Inr (h\<lparr>map_objs := (map_objs h)(next_map h :=
               attach_spec (map_content h (getCtxMeta (Some c))) keyvals),
            next_map := Suc (next_map h)\<rparr>,
          Some (ValueCtx c ErrxCtxKey (MetaMap (Some (next_map h)))))"
  by (simp add: WithMetaContext_def Let_def context_WithValue_def keyvals_loop_spec
      attach_spec_def)

lemma ctx_ab_built:
  "WithMetaContext heap0 (Some Background) [StringVal ''a'', IntVal 1, StringVal ''b'', IntVal 2]
     = Inr (heap_ab, ctx_ab)"
  by (simp add: heap_ab_def ctx_ab_def WithMetaContext_result attach_spec_def map_content_def
      getCtxMeta_def heap0_def)

lemma read_ctx_ab: "read_snapshot heap_ab ctx_ab = [''a'' \<mapsto> IntVal 1, ''b'' \<mapsto> IntVal 2]"
  by (simp add: read_snapshot_def map_content_def getCtxMeta_def heap_ab_def ctx_ab_def)

text \<open>
  C3. For every parent context (a non-nil context whose snapshot, if it has one, is a map
  of the store) and every argument list, \<open>WithMetaContext\<close> returns a child and leaves
  the parent's snapshot as it was: reading the parent in the store after the call gives
  the mapping it gave before, the child's map is another object than the parent's, and
  no map that existed before the call has changed.
\<close>

theorem WithMetaContext_keeps_parent_snapshot:
  assumes "parent \<noteq> None" and "allocated_map h (getCtxMeta parent)"
  shows "\<exists>h' child. WithMetaContext h parent keyvals = Inr (h', child)
           \<and> read_snapshot h' parent = read_snapshot h parent
           \<and> getCtxMeta parent \<noteq> getCtxMeta child
           \<and> (\<forall>a. a < next_map h \<longrightarrow> map_objs h' a = map_objs h a)"
proof -
  from assms(1) obtain c where c: "parent = Some c" by auto
  show ?thesis
    using assms(2) unfolding c WithMetaContext_result
    by (auto simp: read_snapshot_def map_content_def allocated_map_def getCtxMeta_def
        split: option.splits ctxval.splits)
qed

theorem WithMetaContext_keeps_parent_snapshot_witness:
  "ctx_ab \<noteq> None \<and> allocated_map heap_ab (getCtxMeta ctx_ab)
   \<and> WithMetaContext heap0 (Some Background)
        [StringVal ''a'', IntVal 1, StringVal ''b'', IntVal 2] = Inr (heap_ab, ctx_ab)
   \<and> (\<exists>h' child. WithMetaContext heap_ab ctx_ab [StringVal ''b'', IntVal 3] = Inr (h', child)
         \<and> read_snapshot h' ctx_ab = [''a'' \<mapsto> IntVal 1, ''b'' \<mapsto> IntVal 2])"
proof -
  have a: "ctx_ab \<noteq> None" by (simp add: ctx_ab_def)
  have b: "allocated_map heap_ab (getCtxMeta ctx_ab)"
    by (simp add: allocated_map_def getCtxMeta_def ctx_ab_def heap_ab_def)
  show ?thesis
    using WithMetaContext_keeps_parent_snapshot [OF a b, of "[StringVal ''b'', IntVal 3]"]
      a b ctx_ab_built read_ctx_ab by auto
qed

text \<open>
  C4. For every parent context and argument list, reading the child that
  \<open>WithMetaContext\<close> returns gives the parent's snapshot (empty if it has none) with the
  supplied pairs laid over it as the specification says: a supplied pair overwrites the
  parent's entry of the same key, the last pair wins among duplicates, a pair whose key
  is not a string is dropped, and so is a trailing key without a value.
\<close>

theorem WithMetaContext_child_snapshot:
  assumes "parent \<noteq> None"
  shows "\<exists>h' child. WithMetaContext h parent keyvals = Inr (h', child)
           \<and> read_snapshot h' child = attach_spec (read_snapshot h parent) keyvals"
proof -
  from assms(1) obtain c where c: "parent = Some c" by auto
  show ?thesis
    unfolding c WithMetaContext_result
    by (simp add: read_snapshot_def map_content_def getCtxMeta_def)
qed

theorem WithMetaContext_child_snapshot_witness:
  "ctx_ab \<noteq> None
   \<and> (\<exists>h' child. WithMetaContext heap_ab ctx_ab [StringVal ''b'', IntVal 3] = Inr (h', child)
         \<and> read_snapshot h' child = [''a'' \<mapsto> IntVal 1, ''b'' \<mapsto> IntVal 3])
   \<and> (\<exists>h' child. WithMetaContext heap0 (Some Background)
           [IntVal 123, StringVal ''value'', StringVal ''k'', IntVal 1, StringVal ''k'', IntVal 2,
            StringVal ''key2''] = Inr (h', child)
         \<and> read_snapshot h' child = [''k'' \<mapsto> IntVal 2])"
proof -
  have a: "ctx_ab \<noteq> None" by (simp add: ctx_ab_def)
  have b: "Some Background \<noteq> None" by simp
  have s1: "attach_spec (read_snapshot heap_ab ctx_ab) [StringVal ''b'', IntVal 3]
              = [''a'' \<mapsto> IntVal 1, ''b'' \<mapsto> IntVal 3]"
    by (simp add: read_ctx_ab attach_spec_def)
  have s2: "attach_spec (read_snapshot heap0 (Some Background))
              [IntVal 123, StringVal ''value'', StringVal ''k'', IntVal 1, StringVal ''k'', IntVal 2,
               StringVal ''key2'']
              = [''k'' \<mapsto> IntVal 2]"
    by (simp add: attach_spec_def read_snapshot_def map_content_def getCtxMeta_def)
  show ?thesis
    using WithMetaContext_child_snapshot [OF a, of heap_ab "[StringVal ''b'', IntVal 3]"]
      WithMetaContext_child_snapshot [OF b, of heap0
        "[IntVal 123, StringVal ''value'', StringVal ''k'', IntVal 1, StringVal ''k'', IntVal 2,
          StringVal ''key2'']"]
      a s1 s2 by simp
qed

section \<open>Metadata: who wins\<close>

lemma heap_meta_facts:
  "metadata (error_objs heap_meta 0) = Some 1"
  "map_objs heap_meta 2 = [''user_id'' \<mapsto> IntVal 123]"
  by (simp_all add: heap_meta_def New_def newError_def Let_def WithMetaContext_result heap0_def
      attach_spec_def map_content_def getCtxMeta_def)

lemma heap_meta_built:
  "(case New heap0 [] CodeInternal ''something failed'' of
      (h, e) \<Rightarrow> e = Some 0 \<and> WithMetaContext h (Some Background)
                   [StringVal ''user_id'', IntVal 123] = Inr (heap_meta, ctx_meta))"
  by (simp add: heap_meta_def ctx_meta_def New_def newError_def Let_def WithMetaContext_result
      heap0_def)

text \<open>
  C5. For every ErrorValue (an \<open>Error\<close> of the store whose metadata map is not nil), every
  key \<open>k\<close> and values \<open>X\<close>, \<open>Y\<close>, and every context whose snapshot maps \<open>k\<close> to \<open>Y\<close>
  (the snapshot being another map than the error's own metadata, as it always is, each
  being made by its own \<open>make\<close>): \<open>WithMeta(k, X)\<close> followed by
  \<open>WithMetaFromContext\<close> leaves \<open>metadata[k] = Y\<close>, and the two calls in the other
  order leave \<open>metadata[k] = X\<close>. Both calls return the receiver.
\<close>

theorem metadata_precedence_follows_call_order:
  assumes md: "metadata (error_objs h a) = Some m"
    and sep: "getCtxMeta c \<noteq> Some m"
    and y: "read_snapshot h c k = Some Y"
  shows "(\<exists>h1 h2. Error_WithMeta h (Some a) k X = Inr (h1, Some a)
            \<and> Error_WithMetaFromContext h1 (Some a) c = Inr (h2, Some a)
            \<and> map_content h2 (Error_Metadata h2 (Some a)) k = Some Y)
       \<and> (\<exists>h1 h2. Error_WithMetaFromContext h (Some a) c = Inr (h1, Some a)
            \<and> Error_WithMeta h1 (Some a) k X = Inr (h2, Some a)
            \<and> map_content h2 (Error_Metadata h2 (Some a)) k = Some X)"
proof -
  let ?snap = "map_content h (getCtxMeta c)"
  from y have ne: "?snap \<noteq> Map.empty" by (auto simp: read_snapshot_def)
  from y have sy: "?snap k = Some Y" by (simp add: read_snapshot_def)
  let ?h1 = "h\<lparr>map_objs := (map_objs h)(m := (map_objs h m)(k \<mapsto> X))\<rparr>"
  have w1: "Error_WithMeta h (Some a) k X = Inr (?h1, Some a)"
    using md by (simp add: Error_WithMeta_def map_assign_def)
  have same: "map_content ?h1 (getCtxMeta c) = ?snap"
    using sep by (cases "getCtxMeta c") (auto simp: map_content_def)
  let ?h2 = "?h1\<lparr>map_objs := (map_objs ?h1)(m := map_objs ?h1 m ++ ?snap)\<rparr>"
  have m1: "Error_WithMetaFromContext ?h1 (Some a) c = Inr (?h2, Some a)"
    using md ne same by (simp add: Error_WithMetaFromContext_def Let_def)
  have r1: "map_content ?h2 (Error_Metadata ?h2 (Some a)) k = Some Y"
    using md sy by (simp add: map_content_def Error_Metadata_def map_add_def)
  let ?g1 = "h\<lparr>map_objs := (map_objs h)(m := map_objs h m ++ ?snap)\<rparr>"
  have m2: "Error_WithMetaFromContext h (Some a) c = Inr (?g1, Some a)"
    using md ne by (simp add: Error_WithMetaFromContext_def Let_def)
  let ?g2 = "?g1\<lparr>map_objs := (map_objs ?g1)(m := (map_objs ?g1 m)(k \<mapsto> X))\<rparr>"
  have w2: "Error_WithMeta ?g1 (Some a) k X = Inr (?g2, Some a)"
    using md by (simp add: Error_WithMeta_def map_assign_def)
  have r2: "map_content ?g2 (Error_Metadata ?g2 (Some a)) k = Some X"
    using md by (simp add: map_content_def Error_Metadata_def)
  from w1 m1 r1 m2 w2 r2 show ?thesis by blast
qed

theorem metadata_precedence_follows_call_order_witness:
  "metadata (error_objs heap_meta 0) = Some 1
   \<and> getCtxMeta ctx_meta \<noteq> Some 1
   \<and> read_snapshot heap_meta ctx_meta ''user_id'' = Some (IntVal 123)
   \<and> (\<exists>h1 h2. Error_WithMeta heap_meta (Some 0) ''user_id'' (IntVal 999) = Inr (h1, Some 0)
         \<and> Error_WithMetaFromContext h1 (Some 0) ctx_meta = Inr (h2, Some 0)
         \<and> map_content h2 (Error_Metadata h2 (Some 0)) ''user_id'' = Some (IntVal 123))
   \<and> (\<exists>h1 h2. Error_WithMetaFromContext heap_meta (Some 0) ctx_meta = Inr (h1, Some 0)
         \<and> Error_WithMeta h1 (Some 0) ''user_id'' (IntVal 999) = Inr (h2, Some 0)
         \<and> map_content h2 (Error_Metadata h2 (Some 0)) ''user_id'' = Some (IntVal 999))"
proof -
  have a: "metadata (error_objs heap_meta 0) = Some 1" by (rule heap_meta_facts(1))
  have b: "getCtxMeta ctx_meta \<noteq> Some 1" by (simp add: getCtxMeta_def ctx_meta_def)
  have c: "read_snapshot heap_meta ctx_meta ''user_id'' = Some (IntVal 123)"
    by (simp add: read_snapshot_def map_content_def getCtxMeta_def ctx_meta_def heap_meta_facts(2))
  show ?thesis
    using metadata_precedence_follows_call_order [OF a b c, of "IntVal 999"] a b c by simp
qed

section \<open>Equivalence\<close>

text \<open>
  C6. For every two ErrorValues \<open>a\<close> and \<open>b\<close>, \<open>a.Is(b)\<close> returns whether their codes
  are equal, whatever their other fields hold; and the nil \<open>*Error\<close> is equivalent to a
  target exactly when the target is the nil error, so to no constructed ErrorValue.
\<close>

theorem Error_Is_compares_codes:
  "Error_Is h (Some a) (ErrxPtr (Some b)) = Inr (Error_Code h (Some a) = Error_Code h (Some b))
   \<and> Error_Is h None target = Inr (target = NilError)
   \<and> Error_Is h None (ErrxPtr (Some b)) = Inr False"
  by (simp add: Error_Is_def Error_Code_def)

theorem Error_Is_compares_codes_witness:
  "(case New heap0 [] CodeNotFound ''a'' of (h1, a) \<Rightarrow>
    case New h1 [] CodeNotFound ''b'' of (h2, b) \<Rightarrow>
    case New h2 [] CodeInternal ''a'' of (h, c) \<Rightarrow>
      a = Some 0 \<and> b = Some 1 \<and> c = Some 2
      \<and> Error_Is h a (ErrxPtr b) = Inr True
      \<and> Error_Is h a (ErrxPtr c) = Inr False
      \<and> Error_Is h None NilError = Inr True
      \<and> Error_Is h None (ErrxPtr a) = Inr False)"
proof -
  obtain h1 a where n1: "New heap0 [] CodeNotFound ''a'' = (h1, a)" by force
  obtain h2 b where n2: "New h1 [] CodeNotFound ''b'' = (h2, b)" by force
  obtain h c where n3: "New h2 [] CodeInternal ''a'' = (h, c)" by force
  have ptrs: "a = Some 0" "b = Some 1" "c = Some 2"
    using n1 n2 n3 by (auto simp: New_def newError_def Let_def heap0_def)
  have codes: "Error_Code h (Some 0) = CodeNotFound" "Error_Code h (Some 1) = CodeNotFound"
      "Error_Code h (Some 2) = CodeInternal"
    using n1 n2 n3 by (auto simp: New_def newError_def Let_def heap0_def Error_Code_def)
  have ne: "CodeNotFound \<noteq> CodeInternal" by (simp add: CodeNotFound_def CodeInternal_def)
  show ?thesis
    using Error_Is_compares_codes [of h 0 1 NilError] Error_Is_compares_codes [of h 0 2 NilError]
      Error_Is_compares_codes [of h 0 0 NilError]
      n1 n2 n3 ptrs codes ne by simp
qed

section \<open>Traversal of a two-level wrap\<close>

text \<open>
  C7. For every base error, codes \<open>c1\<close>, \<open>c2\<close> and messages \<open>m1\<close>, \<open>m2\<close>, on
  \<open>Wrap(Wrap(base, c2, m2), c1, m1)\<close>: \<open>CodeOf\<close> of the outer value is \<open>c1\<close>, and
  \<open>As\<close> on the outer value finds the outer node itself, which is a pointer allocated by
  the outer call and so neither the inner wrap nor anything that existed before; the
  inner wrap is its cause and, for a non-nil base, carries \<open>c2\<close> and \<open>base\<close>. \<open>As\<close> of
  the nil error finds nothing.
\<close>

theorem Wrap_Wrap_first_is_outer:
  "(case Wrap h callstack base c2 m2 of
      (h1, inner) \<Rightarrow>
        (case Wrap h1 callstack' (ErrxPtr inner) c1 m1 of
           (h2, outer) \<Rightarrow>
             CodeOf h2 (ErrxPtr outer) = Inr c1
           \<and> As (ErrxPtr outer) = (outer, True)
           \<and> outer = Some (next_error h1)
           \<and> next_error h \<le> next_error h1
           \<and> outer \<noteq> inner
           \<and> Error_Unwrap h2 outer = ErrxPtr inner
           \<and> (base \<noteq> NilError \<longrightarrow> inner = Some (next_error h) \<and> Error_Unwrap h2 inner = base
                \<and> Error_Code h2 inner = c2)))
   \<and> As NilError = (None, False)"
  by (simp add: Wrap_def newError_def Let_def CodeOf_def As_def AsType_def Error_Unwrap_def
      Error_Code_def)

theorem Wrap_Wrap_first_is_outer_witness:
  "(case Wrap heap0 [] (ErrorString ''base'') CodeUnavailable ''m2'' of
      (h1, inner) \<Rightarrow>
        (case Wrap h1 [] (ErrxPtr inner) CodeNotFound ''m1'' of
           (h2, outer) \<Rightarrow>
             inner = Some 0 \<and> outer = Some 1
           \<and> CodeOf h2 (ErrxPtr outer) = Inr CodeNotFound
           \<and> As (ErrxPtr outer) = (outer, True)
           \<and> Error_Unwrap h2 outer = ErrxPtr inner
           \<and> Error_Unwrap h2 inner = ErrorString ''base''
           \<and> Error_Code h2 inner = CodeUnavailable))
   \<and> As NilError = (None, False)"
proof -
  obtain h1 inner where w1: "Wrap heap0 [] (ErrorString ''base'') CodeUnavailable ''m2'' = (h1, inner)"
    by force
  obtain h2 outer where w2: "Wrap h1 [] (ErrxPtr inner) CodeNotFound ''m1'' = (h2, outer)"
    by force
  have n: "next_error heap0 = 0" "next_error h1 = 1"
    using w1 by (auto simp: heap0_def Wrap_def newError_def Let_def)
  show ?thesis
    using Wrap_Wrap_first_is_outer [where h = heap0 and callstack = "[]"
        and base = "ErrorString ''base''" and ?c2.0 = CodeUnavailable and ?m2.0 = "''m2''"
        and callstack' = "[]" and ?c1.0 = CodeNotFound and ?m1.0 = "''m1''"] w1 w2 n
    by auto
qed

section \<open>Retryability through a chain\<close>

text \<open>
  C10. \<open>IsRetryable\<close> asks only the first ErrorValue that the traversal finds: for every
  error whose first (outermost) ErrorValue is not retryable, \<open>IsRetryable\<close> is false,
  whatever the store holds for the ErrorValues deeper in the cause chain.
\<close>

theorem IsRetryable_asks_first_only:
  assumes "errx_nodes err = p # ps" and "\<not> Error_IsRetryable h p"
  shows "\<not> IsRetryable h err"
  using assms by (simp add: IsRetryable_def As_found)

theorem IsRetryable_asks_first_only_witness:
  "(case New heap0 [] CodeUnavailable ''service unavailable'' of
      (h1, e) \<Rightarrow>
        (case Error_WithRetryable h1 e of
           (h2, inner) \<Rightarrow>
             (case Wrap h2 [] (ErrxPtr inner) CodeNotFound ''user not found'' of
                (h, outer) \<Rightarrow>
                  errx_nodes (WrapError ''failed'' (ErrxPtr outer)) = [outer]
                \<and> \<not> Error_IsRetryable h outer
                \<and> Error_Unwrap h outer = ErrxPtr inner
                \<and> Error_IsRetryable h inner
                \<and> IsRetryable h (ErrxPtr inner)
                \<and> \<not> IsRetryable h (WrapError ''failed'' (ErrxPtr outer))
                \<and> \<not> IsRetryable h (ErrxPtr outer))))"
proof -
  obtain h1 e where n: "New heap0 [] CodeUnavailable ''service unavailable'' = (h1, e)" by force
  obtain h2 inner where r: "Error_WithRetryable h1 e = (h2, inner)" by force
  obtain h outer where w: "Wrap h2 [] (ErrxPtr inner) CodeNotFound ''user not found'' = (h, outer)"
    by force
  have e: "e = Some 0" "inner = Some 0" "outer = Some 1"
    using n r w by (auto simp: New_def newError_def Let_def heap0_def Error_WithRetryable_def Wrap_def)
  have a: "errx_nodes (WrapError ''failed'' (ErrxPtr outer)) = [outer]" by simp
  have a': "errx_nodes (ErrxPtr outer) = [outer]" by simp
  have b: "\<not> Error_IsRetryable h outer"
    using n r w by (auto simp: New_def newError_def Let_def heap0_def Error_WithRetryable_def
        Wrap_def Error_IsRetryable_def)
  have c: "Error_IsRetryable h inner" "Error_Unwrap h outer = ErrxPtr inner"
    using n r w by (auto simp: New_def newError_def Let_def heap0_def Error_WithRetryable_def
        Wrap_def Error_IsRetryable_def Error_Unwrap_def)
  have d: "IsRetryable h (ErrxPtr inner)"
    using c by (simp add: IsRetryable_def As_def AsType_def)
  show ?thesis
    using IsRetryable_asks_first_only [OF a b] IsRetryable_asks_first_only [OF a' b]
      n r w a b c d by simp
qed

section \<open>What a constructor establishes\<close>

lemma newError_fresh: "fresh_ErrorValue h callstack (newError h callstack c msg cse)"
  using captureStackTrace_bound [of callstack stackSkipDepth]
  by (simp add: fresh_ErrorValue_def newError_def Let_def Error_Details_def Error_Metadata_def
      Error_StackTrace_def map_content_def maxDepth_def)

text \<open>
  C9. Every ErrorValue that a constructor produces (\<open>New\<close>, \<open>Newf\<close>, \<open>Wrap\<close> and
  \<open>Wrapf\<close> of a non-nil cause, the fallback branch of \<open>Ensure\<close> and \<open>Ensuref\<close>) has
  details and metadata maps that are not nil and are empty, and a stack trace that is the
  capture made at construction, at most 32 frames long; and no mutator writes the stack
  trace of any ErrorValue afterwards, so it is captured exactly once.
\<close>

theorem constructors_give_maps_and_bounded_stack:
  "fresh_ErrorValue h callstack (New h callstack c msg)
   \<and> fresh_ErrorValue h callstack (Newf sprintf h callstack c format args)
   \<and> (err \<noteq> NilError \<longrightarrow>
        fresh_ErrorValue h callstack (Wrap h callstack err c msg)
      \<and> fresh_ErrorValue h callstack (Wrapf sprintf h callstack err c format args))
   \<and> (err \<noteq> NilError \<and> errx_nodes err = [] \<longrightarrow>
        fresh_ErrorValue h callstack (Ensure h callstack err c msg)
      \<and> fresh_ErrorValue h callstack (Ensuref sprintf h callstack err c format args))
   \<and> (case Error_WithDetail h e k v of Inl p \<Rightarrow> True
       | Inr (h', e') \<Rightarrow> Error_StackTrace h' x = Error_StackTrace h x)
   \<and> (case Error_WithMeta h e k v of Inl p \<Rightarrow> True
       | Inr (h', e') \<Rightarrow> Error_StackTrace h' x = Error_StackTrace h x)
   \<and> (case Error_WithMetaFromContext h e ctxt of Inl p \<Rightarrow> True
       | Inr (h', e') \<Rightarrow> Error_StackTrace h' x = Error_StackTrace h x)
   \<and> Error_StackTrace (fst (Error_WithDebug h e msg)) x = Error_StackTrace h x
   \<and> Error_StackTrace (fst (Error_WithDebugf sprintf h e format args)) x = Error_StackTrace h x
   \<and> Error_StackTrace (fst (Error_WithSource h e src)) x = Error_StackTrace h x
   \<and> Error_StackTrace (fst (Error_WithTags h e ts)) x = Error_StackTrace h x
   \<and> Error_StackTrace (fst (Error_WithRetryable h e)) x = Error_StackTrace h x"
proof -
  have ctor: "fresh_ErrorValue h callstack (New h callstack c msg)"
    "fresh_ErrorValue h callstack (Newf sprintf h callstack c format args)"
    "err \<noteq> NilError \<Longrightarrow> fresh_ErrorValue h callstack (Wrap h callstack err c msg)"
    "err \<noteq> NilError \<Longrightarrow> fresh_ErrorValue h callstack (Wrapf sprintf h callstack err c format args)"
    "err \<noteq> NilError \<Longrightarrow> errx_nodes err = [] \<Longrightarrow> fresh_ErrorValue h callstack (Ensure h callstack err c msg)"
    "err \<noteq> NilError \<Longrightarrow> errx_nodes err = []
       \<Longrightarrow> fresh_ErrorValue h callstack (Ensuref sprintf h callstack err c format args)"
    by (simp_all add: New_def Newf_def Wrap_def Wrapf_def Ensure_def Ensuref_def As_not_found
        newError_fresh)
  have m1: "(case Error_WithDetail h e k v of Inl p \<Rightarrow> True
       | Inr (h', e') \<Rightarrow> Error_StackTrace h' x = Error_StackTrace h x)"
    by (auto simp: Error_WithDetail_def map_assign_def Error_StackTrace_def
        split: option.splits sum.splits)
  have m2: "(case Error_WithMeta h e k v of Inl p \<Rightarrow> True
       | Inr (h', e') \<Rightarrow> Error_StackTrace h' x = Error_StackTrace h x)"
    by (auto simp: Error_WithMeta_def map_assign_def Error_StackTrace_def
        split: option.splits sum.splits)
  have m3: "(case Error_WithMetaFromContext h e ctxt of Inl p \<Rightarrow> True
       | Inr (h', e') \<Rightarrow> Error_StackTrace h' x = Error_StackTrace h x)"
    by (auto simp: Error_WithMetaFromContext_def Let_def Error_StackTrace_def
        split: option.splits sum.splits if_splits)
  have m4: "Error_StackTrace (fst (Error_WithDebug h e msg)) x = Error_StackTrace h x"
    "Error_StackTrace (fst (Error_WithDebugf sprintf h e format args)) x = Error_StackTrace h x"
    "Error_StackTrace (fst (Error_WithSource h e src)) x = Error_StackTrace h x"
    "Error_StackTrace (fst (Error_WithTags h e ts)) x = Error_StackTrace h x"
    "Error_StackTrace (fst (Error_WithRetryable h e)) x = Error_StackTrace h x"
    by (auto simp: Error_WithDebug_def Error_WithDebugf_def Error_WithSource_def
        Error_WithTags_def Error_WithRetryable_def Error_StackTrace_def split: option.splits)
  from ctor m1 m2 m3 m4 show ?thesis by blast
qed

theorem constructors_give_maps_and_bounded_stack_witness:
  "ErrorString ''root cause'' \<noteq> NilError
   \<and> errx_nodes (ErrorString ''root cause'') = []
   \<and> fresh_ErrorValue heap0 stack40 (New heap0 stack40 CodeInternal ''test error'')
   \<and> fresh_ErrorValue heap0 stack40 (Wrap heap0 stack40 (ErrorString ''root cause'') CodeInternal ''m'')
   \<and> fresh_ErrorValue heap0 stack40 (Ensure heap0 stack40 (ErrorString ''root cause'') CodeInternal ''m'')
   \<and> length stack40 = 40
   \<and> length (Error_StackTrace (fst (New heap0 stack40 CodeInternal ''test error'')) (Some 0)) = 32
   \<and> Error_StackTrace (fst (New heap0 [1, 2, 3, 4, 5, 6] CodeInternal ''test error'')) (Some 0) = [5, 6]"
proof -
  have a: "ErrorString ''root cause'' \<noteq> NilError" by simp
  have b: "errx_nodes (ErrorString ''root cause'') = []" by simp
  have l: "length stack40 = 40" by (simp add: stack40_def)
  have t: "length (Error_StackTrace (fst (New heap0 stack40 CodeInternal ''test error'')) (Some 0)) = 32"
    by (simp add: New_def newError_def Let_def heap0_def Error_StackTrace_def captureStackTrace_eq
        maxDepth_def stackSkipDepth_def l)
  have u: "Error_StackTrace (fst (New heap0 [1, 2, 3, 4, 5, 6] CodeInternal ''test error'')) (Some 0) = [5, 6]"
    by (simp add: New_def newError_def Let_def heap0_def Error_StackTrace_def captureStackTrace_eq
        maxDepth_def stackSkipDepth_def)
  show ?thesis
    using constructors_give_maps_and_bounded_stack [where h = heap0 and callstack = stack40
        and c = CodeInternal and msg = "''test error''" and err = "ErrorString ''root cause''"]
      constructors_give_maps_and_bounded_stack [where h = heap0 and callstack = stack40
        and c = CodeInternal and msg = "''m''" and err = "ErrorString ''root cause''"]
      a b l t u by simp
qed

section \<open>Totality\<close>

text \<open>
  C8. The claim that every core operation is total fails on the code: on a constructed
  ErrorValue, \<open>Is\<close> with a target that is a nil \<open>*Error\<close> reads \<open>t.code\<close> through the
  nil pointer and panics, and so does \<open>CodeOf\<close> when the first \<open>*Error\<close> of the chain
  is a nil pointer.
\<close>

theorem Error_Is_typed_nil_target_panics:
  "(case New heap0 [] CodeNotFound ''a'' of
      (h, e) \<Rightarrow> e = Some 0 \<and> Error_Is h e (ErrxPtr None) = Inl NilDereference
               \<and> CodeOf h (ErrxPtr None) = Inl NilDereference)"
  by (simp add: New_def newError_def Let_def heap0_def Error_Is_def CodeOf_def As_def AsType_def)

end
